theory Spec2Isabelle
  imports Main "HOL-Library.Word"
begin

unbundle bit_operations_syntax

section \<open>Machine types\<close>

text \<open>
  The library is built for x86-64 only (\<^verbatim>\<open>syscall.c\<close> refuses every other
  architecture), so \<^verbatim>\<open>unsigned\<close> is a 32-bit word with wrap-around and
  \<^verbatim>\<open>size_t\<close>, \<^verbatim>\<open>off_t\<close> and pointers are 64-bit words. Values of C type
  \<^verbatim>\<open>int\<close> (file descriptors, system-call results, \<^verbatim>\<open>errno\<close>) are only ever
  compared with zero and negated, so they are mathematical integers.
\<close>

type_synonym u32 = "32 word"
type_synonym u64 = "64 word"

section \<open>The submission ring as the ring protocol sees it\<close>

text \<open>
  \<^verbatim>\<open>struct io_uring_sq\<close> holds pointers into the mapped ring (\<^verbatim>\<open>khead\<close>,
  \<^verbatim>\<open>ktail\<close>, \<^verbatim>\<open>kring_mask\<close>, \<^verbatim>\<open>kring_entries\<close>, \<^verbatim>\<open>kflags\<close>,
  \<^verbatim>\<open>kdropped\<close>, \<^verbatim>\<open>array\<close>) and two private indices. The ring protocol only
  dereferences the pointers, so this record holds the pointed-to values: \<open>sq_khead\<close>
  is \<^verbatim>\<open>*sq->khead\<close>, and \<open>sq_array\<close> is the contents of \<^verbatim>\<open>sq->array[]\<close>
  by index. The fields of the mapping are taken to be pairwise distinct locations.
  A pointer to \<^verbatim>\<open>sq->iocbs[i]\<close> is represented by the index \<open>i\<close>, the null
  pointer by \<open>None\<close>. The structure is declared in \<^verbatim>\<open>liburing.h\<close>, which is not
  among the sources; its indices are \<^verbatim>\<open>unsigned\<close>, as are the local variables the
  functions copy them to.
\<close>

record io_uring_sq =
  sq_khead :: u32
  sq_ktail :: u32
  sq_kring_mask :: u32
  sq_kring_entries :: u32
  sq_kflags :: u32
  sq_kdropped :: u32
  sq_array :: "u32 \<Rightarrow> u32"
  iocb_head :: u32
  iocb_tail :: u32

text \<open>
  \<^verbatim>\<open>io_uring_get_iocb\<close>: the result is the returned pointer together with the
  descriptor as the call leaves it.
\<close>

definition io_uring_get_iocb :: "io_uring_sq \<Rightarrow> u32 option \<times> io_uring_sq" where
  "io_uring_get_iocb sq =
     (let next = iocb_tail sq + 1 in
      if next - iocb_head sq > sq_kring_entries sq then (None, sq)
      else
        let iocb = Some (iocb_tail sq AND sq_kring_mask sq) in
        (iocb, sq\<lparr>iocb_tail := next\<rparr>))"

section \<open>The world of the ring protocol\<close>

text \<open>
  The completion ring, in the same way: \<open>cq_khead\<close> is \<^verbatim>\<open>*cq->khead\<close>. A
  pointer to \<^verbatim>\<open>cq->events[i]\<close> is represented by the index \<open>i\<close>.
\<close>

record io_uring_cq =
  cq_khead :: u32
  cq_ktail :: u32
  cq_kring_mask :: u32
  cq_kring_entries :: u32
  cq_koverflow :: u32

text \<open>The arguments of one \<^verbatim>\<open>io_uring_enter\<close> system call.\<close>

record enter_call =
  enter_fd :: int
  to_submit :: u32
  min_complete :: u32
  enter_flags :: u32

text \<open>
  What the functions do to the outside, in program order: fences, stores to memory that
  the kernel reads, and system calls.
\<close>

datatype event =
  Ev_read_barrier
| Ev_write_barrier
| Ev_store_sq_array u32 u32
| Ev_store_sq_ktail u32
| Ev_store_cq_khead u32
| Ev_enter enter_call

text \<open>
  The state the functions run in: both rings, \<^verbatim>\<open>errno\<close>, whatever else the kernel
  keeps (\<open>kernel\<close>), and the events so far. The functions are sequential code, so the
  kernel acts on this state only inside a system call.
\<close>

record 'k world =
  sq_ring :: io_uring_sq
  cq_ring :: io_uring_cq
  errno :: int
  kernel :: 'k
  trace :: "event list"

text \<open>
  The kernel's side of \<^verbatim>\<open>syscall(__NR_sys_io_uring_enter, ...)\<close> is a parameter:
  any function from the arguments and the state to the returned value and the new state.
\<close>

type_synonym 'k sys_enter = "enter_call \<Rightarrow> 'k world \<Rightarrow> int \<times> 'k world"

text \<open>
  The constants of \<^verbatim>\<open>io_uring.h\<close>, a header that is not among the sources: they
  are parameters of every function that uses one.
\<close>

record io_uring_h =
  IORING_ENTER_GETEVENTS :: u32
  IORING_OFF_SQ_RING :: u64
  IORING_OFF_IOCB :: u64
  IORING_OFF_CQ_RING :: u64
  sizeof_io_uring_iocb :: u64
  sizeof_io_uring_event :: u64

subsection \<open>\<^verbatim>\<open>barrier.h\<close> and \<^verbatim>\<open>syscall.c\<close>\<close>

definition emit :: "event \<Rightarrow> 'k world \<Rightarrow> 'k world" where
  "emit e w = w\<lparr>trace := trace w @ [e]\<rparr>"

definition read_barrier :: "'k world \<Rightarrow> 'k world" where
  "read_barrier w = emit Ev_read_barrier w"

definition write_barrier :: "'k world \<Rightarrow> 'k world" where
  "write_barrier w = emit Ev_write_barrier w"

text \<open>
  \<^verbatim>\<open>io_uring_enter\<close> passes its arguments to the kernel and returns the kernel's
  result. The call is appended to the events of the state it was made in: the kernel has
  no hand in the record of events.
\<close>

definition io_uring_enter ::
  "'k sys_enter \<Rightarrow> int \<Rightarrow> u32 \<Rightarrow> u32 \<Rightarrow> u32 \<Rightarrow> 'k world \<Rightarrow> int \<times> 'k world" where
  "io_uring_enter syscall fd to_sub min_compl flags w =
     (let c = \<lparr>enter_fd = fd, to_submit = to_sub, min_complete = min_compl,
                enter_flags = flags\<rparr>;
          r = syscall c w
      in (fst r, (snd r)\<lparr>trace := trace w @ [Ev_enter c]\<rparr>))"

subsection \<open>Stores to the shared rings\<close>

definition store_sq_array :: "u32 \<Rightarrow> u32 \<Rightarrow> 'k world \<Rightarrow> 'k world" where
  "store_sq_array i v w =
     emit (Ev_store_sq_array i v)
       (w\<lparr>sq_ring := (sq_ring w)\<lparr>sq_array := (sq_array (sq_ring w))(i := v)\<rparr>\<rparr>)"

definition store_sq_ktail :: "u32 \<Rightarrow> 'k world \<Rightarrow> 'k world" where
  "store_sq_ktail v w =
     emit (Ev_store_sq_ktail v) (w\<lparr>sq_ring := (sq_ring w)\<lparr>sq_ktail := v\<rparr>\<rparr>)"

definition store_cq_khead :: "u32 \<Rightarrow> 'k world \<Rightarrow> 'k world" where
  "store_cq_khead v w =
     emit (Ev_store_cq_khead v) (w\<lparr>cq_ring := (cq_ring w)\<lparr>cq_khead := v\<rparr>\<rparr>)"

subsection \<open>\<^verbatim>\<open>io_uring_submit\<close>\<close>

text \<open>
  The \<^verbatim>\<open>while\<close> loop of \<^verbatim>\<open>io_uring_submit\<close>, with its local variables
  \<^verbatim>\<open>ktail\<close>, \<^verbatim>\<open>ktail_next\<close> and \<^verbatim>\<open>submitted\<close> (\<open>msk\<close> is the constant
  \<^verbatim>\<open>mask\<close>); it returns the state and
  the values of \<^verbatim>\<open>ktail\<close> and \<^verbatim>\<open>submitted\<close> at the exit. The comparison
  \<^verbatim>\<open>sq->iocb_head < sq->iocb_tail\<close> is the plain unsigned one.
\<close>

function submit_loop ::
  "u32 \<Rightarrow> 'k world \<Rightarrow> u32 \<Rightarrow> u32 \<Rightarrow> u32 \<Rightarrow> 'k world \<times> u32 \<times> u32" where
  "submit_loop msk w ktail ktail_next submitted =
     (if iocb_head (sq_ring w) < iocb_tail (sq_ring w) then
        let ktail_next = ktail_next + 1;
            w = read_barrier w
        in if ktail_next = sq_khead (sq_ring w) then (w, ktail, submitted)
           else
             let w = store_sq_array (ktail AND msk) (iocb_head (sq_ring w) AND msk) w;
                 ktail = ktail_next;
                 w = w\<lparr>sq_ring := (sq_ring w)\<lparr>iocb_head := iocb_head (sq_ring w) + 1\<rparr>\<rparr>;
                 submitted = submitted + 1
             in submit_loop msk w ktail ktail_next submitted
      else (w, ktail, submitted))"
  by pat_completeness auto

termination
  apply (relation "measure (\<lambda>(msk, w, ktail, ktail_next, submitted).
                     unat (iocb_tail (sq_ring w) - iocb_head (sq_ring w)))")
   apply simp
  apply (simp add: read_barrier_def emit_def store_sq_array_def)
  apply unat_arith
  done

text \<open>
  \<^verbatim>\<open>io_uring_submit\<close> up to its label \<^verbatim>\<open>submit:\<close>. The result is the state
  there and \<open>Some submitted\<close> when control reaches the label (by the \<^verbatim>\<open>goto\<close> or
  by falling out of the publishing block), and \<open>None\<close> when the function has left
  through one of its two \<^verbatim>\<open>return 0\<close>.
\<close>

definition io_uring_submit_pre :: "'k world \<Rightarrow> 'k world \<times> u32 option" where
  "io_uring_submit_pre w =
     (let msk = sq_kring_mask (sq_ring w);
          w = read_barrier w
      in if sq_khead (sq_ring w) \<noteq> sq_ktail (sq_ring w)
         then (w, Some (sq_kring_entries (sq_ring w)))
         else if iocb_head (sq_ring w) = iocb_tail (sq_ring w) then (w, None)
         else
           let r = submit_loop msk w (sq_ktail (sq_ring w)) (sq_ktail (sq_ring w)) 0;
               w = fst r; ktail = fst (snd r); submitted = snd (snd r)
           in if submitted = 0 then (w, None)
              else if sq_ktail (sq_ring w) \<noteq> ktail
                   then (write_barrier (store_sq_ktail ktail (write_barrier w)), Some submitted)
                   else (w, Some submitted))"

text \<open>
  The whole function: the value returned and the state left. At the label it returns
  what \<^verbatim>\<open>io_uring_enter(fd, submitted, 0, IORING_ENTER_GETEVENTS)\<close> returns.
\<close>

definition io_uring_submit ::
  "'k sys_enter \<Rightarrow> io_uring_h \<Rightarrow> int \<Rightarrow> 'k world \<Rightarrow> int \<times> 'k world" where
  "io_uring_submit syscall h fd w =
     (case io_uring_submit_pre w of
        (w, None) \<Rightarrow> (0, w)
      | (w, Some submitted) \<Rightarrow>
          io_uring_enter syscall fd submitted 0 (IORING_ENTER_GETEVENTS h) w)"

subsection \<open>\<^verbatim>\<open>io_uring_get_completion\<close>\<close>

text \<open>
  The two ways out of the \<^verbatim>\<open>do ... while (1)\<close> loop: \<^verbatim>\<open>return -errno\<close> with
  the value returned, and \<^verbatim>\<open>break\<close> with the index \<open>i\<close> of
  \<^verbatim>\<open>ev = &cq->events[i]\<close>.
\<close>

datatype loop_exit = Loop_return int | Loop_break u32

text \<open>
  The loop may run forever (the kernel may return success without ever publishing a
  completion), so it is a partial function: \<open>None\<close> is the call that never returns.
  \<open>head\<close> is the local variable, read once before the loop.
\<close>

partial_function (option) get_completion_loop ::
  "'k sys_enter \<Rightarrow> io_uring_h \<Rightarrow> int \<Rightarrow> u32 \<Rightarrow> u32 \<Rightarrow> 'k world
     \<Rightarrow> (loop_exit \<times> 'k world) option" where
  "get_completion_loop syscall h fd msk head w =
     (let w = read_barrier w
      in if head \<noteq> cq_ktail (cq_ring w) then Some (Loop_break (head AND msk), w)
         else
           let r = io_uring_enter syscall fd 0 1 (IORING_ENTER_GETEVENTS h) w;
               ret = fst r; w = snd r
           in if ret < 0 then Some (Loop_return (- errno w), w)
              else get_completion_loop syscall h fd msk head w)"

text \<open>
  The whole function. \<open>ev_ptr\<close> is the value of \<^verbatim>\<open>*ev_ptr\<close> on entry; the result
  is the value returned, the state left and the value of \<^verbatim>\<open>*ev_ptr\<close> on return.
\<close>

definition io_uring_get_completion ::
  "'k sys_enter \<Rightarrow> io_uring_h \<Rightarrow> int \<Rightarrow> 'k world \<Rightarrow> u32 option
     \<Rightarrow> (int \<times> 'k world \<times> u32 option) option" where
  "io_uring_get_completion syscall h fd w ev_ptr =
     (let msk = cq_kring_mask (cq_ring w);
          head = cq_khead (cq_ring w)
      in case get_completion_loop syscall h fd msk head w of
           None \<Rightarrow> None
         | Some (Loop_return ret, w) \<Rightarrow> Some (ret, w, ev_ptr)
         | Some (Loop_break i, w) \<Rightarrow>
             let ev = Some i;
                 w = (if ev \<noteq> None then write_barrier (store_cq_khead (head + 1) w) else w)
             in Some (0, w, ev))"

section \<open>States that calls can meet\<close>

text \<open>
  What the kernel cannot write, and \<^verbatim>\<open>io_uring_get_completion\<close> does not: the two
  private indices, which live in the caller's own \<^verbatim>\<open>struct io_uring_sq\<close>, and the
  capacity recorded in the ring, which is fixed when the ring is created.
\<close>

definition sq_private :: "'k world \<Rightarrow> u32 \<times> u32 \<times> u32" where
  "sq_private w =
     (iocb_head (sq_ring w), iocb_tail (sq_ring w), sq_kring_entries (sq_ring w))"

text \<open>
  The states in which a call of the library can find a ring pair.
  \<^verbatim>\<open>io_uring_queue_init\<close> clears the descriptor with \<^verbatim>\<open>memset\<close>, so a history
  starts with both private indices 0, whatever the kernel has put in the ring. From there
  the private part changes only in \<^verbatim>\<open>io_uring_get_iocb\<close> and in
  \<^verbatim>\<open>io_uring_submit\<close> up to its system call; every other step (the kernel at work
  in the shared memory or in a system call, \<^verbatim>\<open>io_uring_get_completion\<close>) may change
  anything else.
\<close>

inductive reachable :: "'k world \<Rightarrow> bool" where
  reach_init:
    "iocb_head (sq_ring w) = 0 \<Longrightarrow> iocb_tail (sq_ring w) = 0 \<Longrightarrow> reachable w"
| reach_get_iocb:
    "reachable w \<Longrightarrow> reachable (w\<lparr>sq_ring := snd (io_uring_get_iocb (sq_ring w))\<rparr>)"
| reach_submit:
    "reachable w \<Longrightarrow> reachable (fst (io_uring_submit_pre w))"
| reach_other:
    "reachable w \<Longrightarrow> sq_private w' = sq_private w \<Longrightarrow> reachable w'"

text \<open>
  The course of a call of \<^verbatim>\<open>io_uring_get_completion\<close> that waits:
  \<open>after_enters k w\<close> is the state after \<open>k\<close> rounds of the loop from \<open>w\<close>, each
  round a fence and a system call. \<open>enter_fails head k w\<close> says that, from \<open>w\<close>, the
  loop makes \<open>k\<close> system calls that return without error and without a completion
  becoming visible, and that the next system call returns a negative value.
\<close>

fun after_enters :: "'k sys_enter \<Rightarrow> io_uring_h \<Rightarrow> int \<Rightarrow> nat \<Rightarrow> 'k world \<Rightarrow> 'k world" where
  "after_enters syscall h fd 0 w = w"
| "after_enters syscall h fd (Suc k) w =
     after_enters syscall h fd k
       (snd (io_uring_enter syscall fd 0 1 (IORING_ENTER_GETEVENTS h) (read_barrier w)))"

fun enter_fails ::
  "'k sys_enter \<Rightarrow> io_uring_h \<Rightarrow> int \<Rightarrow> u32 \<Rightarrow> nat \<Rightarrow> 'k world \<Rightarrow> bool" where
  "enter_fails syscall h fd head 0 w =
     (head = cq_ktail (cq_ring w) \<and>
      fst (io_uring_enter syscall fd 0 1 (IORING_ENTER_GETEVENTS h) (read_barrier w)) < 0)"
| "enter_fails syscall h fd head (Suc k) w =
     (head = cq_ktail (cq_ring w) \<and>
      \<not> fst (io_uring_enter syscall fd 0 1 (IORING_ENTER_GETEVENTS h) (read_barrier w)) < 0 \<and>
      enter_fails syscall h fd head k
        (snd (io_uring_enter syscall fd 0 1 (IORING_ENTER_GETEVENTS h) (read_barrier w))))"

section \<open>Ring initialization\<close>

text \<open>
  \<^verbatim>\<open>io_uring_mmap\<close> works on addresses, so here the two descriptors are records of
  the pointers themselves. The offset tables of \<^verbatim>\<open>struct io_uring_params\<close> are
  declared in \<^verbatim>\<open>io_uring.h\<close>; their fields are 32-bit, as the kernel interface has
  them, and are widened to \<^verbatim>\<open>size_t\<close> where the code adds them to a pointer or
  a size.
\<close>

record io_sqring_offsets =
  sqo_head :: u32
  sqo_tail :: u32
  sqo_ring_mask :: u32
  sqo_ring_entries :: u32
  sqo_flags :: u32
  sqo_dropped :: u32
  sqo_array :: u32

record io_cqring_offsets =
  cqo_head :: u32
  cqo_tail :: u32
  cqo_ring_mask :: u32
  cqo_ring_entries :: u32
  cqo_overflow :: u32
  cqo_events :: u32

record io_uring_params =
  sq_entries :: u32
  cq_entries :: u32
  sq_off :: io_sqring_offsets
  cq_off :: io_cqring_offsets

record io_uring_sq_ptrs =
  sqp_khead :: u64
  sqp_ktail :: u64
  sqp_kring_mask :: u64
  sqp_kring_entries :: u64
  sqp_kflags :: u64
  sqp_kdropped :: u64
  sqp_array :: u64
  sqp_iocbs :: u64
  sqp_iocb_head :: u32
  sqp_iocb_tail :: u32
  sqp_ring_sz :: u64

record io_uring_cq_ptrs =
  cqp_khead :: u64
  cqp_ktail :: u64
  cqp_kring_mask :: u64
  cqp_kring_entries :: u64
  cqp_koverflow :: u64
  cqp_events :: u64
  cqp_ring_sz :: u64

text \<open>
  The address space is the list of the mappings in force, each with the address
  \<^verbatim>\<open>mmap\<close> returned for it and its length, the newest first. The kernel's choice
  in \<^verbatim>\<open>mmap\<close> is a parameter: from the length, the descriptor, the offset and the
  mappings in force it gives either the value of \<^verbatim>\<open>errno\<close> of a failed call or
  the address of the new mapping. The protection and the flags are the same constants in
  all three calls and are left out.
\<close>

type_synonym mappings = "(u64 \<times> u64) list"
type_synonym sys_mmap = "u64 \<Rightarrow> int \<Rightarrow> u64 \<Rightarrow> mappings \<Rightarrow> int + u64"

definition MAP_FAILED :: u64 where
  "MAP_FAILED = - 1"

text \<open>
  \<^verbatim>\<open>mmap\<close>: \<open>Inl e\<close> is the call that returns \<^verbatim>\<open>MAP_FAILED\<close> and sets
  \<^verbatim>\<open>errno\<close> to \<open>e\<close>; \<open>Inr a\<close> is the call that succeeds with address \<open>a\<close>.
\<close>

definition mmap :: "sys_mmap \<Rightarrow> u64 \<Rightarrow> int \<Rightarrow> u64 \<Rightarrow> mappings \<Rightarrow> (int + u64) \<times> mappings" where
  "mmap kmap len fd off ms =
     (case kmap len fd off ms of
        Inl e \<Rightarrow> (Inl e, ms)
      | Inr a \<Rightarrow> (Inr a, (a, len) # ms))"

text \<open>
  \<^verbatim>\<open>munmap\<close> releases a mapping when it is given the address and the length the
  mapping was made with. Given any other address it does not release that mapping: the
  system call either refuses an address that is not at a page boundary or unmaps only
  the pages from that address on. Its result is ignored by every caller here.
\<close>

definition munmap :: "u64 \<Rightarrow> u64 \<Rightarrow> mappings \<Rightarrow> mappings" where
  "munmap a len ms = remove1 (a, len) ms"

text \<open>
  \<^verbatim>\<open>io_uring_mmap\<close>: the result is the value returned, the two descriptors and
  the mappings in force on return. \<^verbatim>\<open>sizeof(unsigned)\<close> is 4.
\<close>

definition io_uring_mmap ::
  "sys_mmap \<Rightarrow> io_uring_h \<Rightarrow> int \<Rightarrow> io_uring_params \<Rightarrow> io_uring_sq_ptrs \<Rightarrow> io_uring_cq_ptrs
     \<Rightarrow> mappings \<Rightarrow> int \<times> io_uring_sq_ptrs \<times> io_uring_cq_ptrs \<times> mappings" where
  "io_uring_mmap kmap h fd p sq cq ms =
     (let sq = sq\<lparr>sqp_ring_sz := ucast (sqo_array (sq_off p)) + ucast (sq_entries p) * 4\<rparr>
      in case mmap kmap (sqp_ring_sz sq) fd (IORING_OFF_SQ_RING h) ms of
           (Inl e, ms) \<Rightarrow> (- e, sq, cq, ms)
         | (Inr ptr, ms) \<Rightarrow>
             let sq = sq\<lparr>sqp_khead := ptr + ucast (sqo_head (sq_off p)),
                         sqp_ktail := ptr + ucast (sqo_tail (sq_off p)),
                         sqp_kring_mask := ptr + ucast (sqo_ring_mask (sq_off p)),
                         sqp_kring_entries := ptr + ucast (sqo_ring_entries (sq_off p)),
                         sqp_kflags := ptr + ucast (sqo_flags (sq_off p)),
                         sqp_kdropped := ptr + ucast (sqo_dropped (sq_off p)),
                         sqp_array := ptr + ucast (sqo_array (sq_off p))\<rparr>;
                 size = ucast (sq_entries p) * sizeof_io_uring_iocb h
             in case mmap kmap size fd (IORING_OFF_IOCB h) ms of
                  (Inl e, ms) \<Rightarrow>
                    let sq = sq\<lparr>sqp_iocbs := MAP_FAILED\<rparr>;
                        ret = - e;
                        ms = munmap (sqp_khead sq) (sqp_ring_sz sq) ms
                    in (ret, sq, cq, ms)
                | (Inr iocbs, ms) \<Rightarrow>
                    let sq = sq\<lparr>sqp_iocbs := iocbs\<rparr>;
                        cq = cq\<lparr>cqp_ring_sz := ucast (cqo_events (cq_off p))
                                     + ucast (cq_entries p) * sizeof_io_uring_event h\<rparr>
                    in case mmap kmap (cqp_ring_sz cq) fd (IORING_OFF_CQ_RING h) ms of
                         (Inl e, ms) \<Rightarrow>
                           let ret = - e;
                               ms = munmap (sqp_iocbs sq)
                                      (ucast (sq_entries p) * sizeof_io_uring_iocb h) ms;
                               ms = munmap (sqp_khead sq) (sqp_ring_sz sq) ms
                           in (ret, sq, cq, ms)
                       | (Inr ptr, ms) \<Rightarrow>
                           let cq = cq\<lparr>cqp_khead := ptr + ucast (cqo_head (cq_off p)),
                                       cqp_ktail := ptr + ucast (cqo_tail (cq_off p)),
                                       cqp_kring_mask := ptr + ucast (cqo_ring_mask (cq_off p)),
                                       cqp_kring_entries :=
                                         ptr + ucast (cqo_ring_entries (cq_off p)),
                                       cqp_koverflow := ptr + ucast (cqo_overflow (cq_off p)),
                                       cqp_events := ptr + ucast (cqo_events (cq_off p))\<rparr>
                           in (fd, sq, cq, ms))"

section \<open>Reading the events\<close>

text \<open>The \<^verbatim>\<open>io_uring_enter\<close> calls among a list of events, in order.\<close>

fun enter_calls :: "event list \<Rightarrow> enter_call list" where
  "enter_calls [] = []"
| "enter_calls (Ev_enter c # es) = c # enter_calls es"
| "enter_calls (_ # es) = enter_calls es"

section \<open>Concrete states and kernels\<close>

text \<open>
  States and kernels on which the theorems below are exercised. The kernel's own state is
  the number of \<^verbatim>\<open>io_uring_enter\<close> calls it has seen.
\<close>

text \<open>
  A submission ring of depth 4 with the given kernel-visible and private indices, and
  one whose capacity is the largest 32-bit value, with as many slots acquired.
\<close>

definition sq_depth4 :: "u32 \<Rightarrow> u32 \<Rightarrow> u32 \<Rightarrow> u32 \<Rightarrow> io_uring_sq" where
  "sq_depth4 kh kt h t =
     \<lparr>sq_khead = kh, sq_ktail = kt, sq_kring_mask = 3, sq_kring_entries = 4,
      sq_kflags = 0, sq_kdropped = 0, sq_array = (\<lambda>_. 0),
      iocb_head = h, iocb_tail = t\<rparr>"

definition sq_max_entries :: io_uring_sq where
  "sq_max_entries =
     \<lparr>sq_khead = 0, sq_ktail = 0, sq_kring_mask = 0xFFFFFFFF, sq_kring_entries = 0xFFFFFFFF,
      sq_kflags = 0, sq_kdropped = 0, sq_array = (\<lambda>_. 0),
      iocb_head = 0, iocb_tail = 0xFFFFFFFF\<rparr>"

definition cq_depth4 :: "u32 \<Rightarrow> u32 \<Rightarrow> io_uring_cq" where
  "cq_depth4 h t =
     \<lparr>cq_khead = h, cq_ktail = t, cq_kring_mask = 3, cq_kring_entries = 4,
      cq_koverflow = 0\<rparr>"

definition world_of :: "io_uring_sq \<Rightarrow> io_uring_cq \<Rightarrow> nat world" where
  "world_of s c = \<lparr>sq_ring = s, cq_ring = c, errno = 0, kernel = 0, trace = []\<rparr>"

definition linux_h :: io_uring_h where
  "linux_h =
     \<lparr>IORING_ENTER_GETEVENTS = 1, IORING_OFF_SQ_RING = 0, IORING_OFF_IOCB = 0x10000000,
      IORING_OFF_CQ_RING = 0x8000000, sizeof_io_uring_iocb = 64,
      sizeof_io_uring_event = 16\<rparr>"

text \<open>A kernel that takes everything it is offered and returns the count.\<close>

definition kernel_accepts :: "nat sys_enter" where
  "kernel_accepts c w = (int (unat (to_submit c)), w\<lparr>kernel := Suc (kernel w)\<rparr>)"

text \<open>
  A kernel whose first call returns 0 with nothing completed and whose later calls fail
  with \<^verbatim>\<open>errno\<close> 4.
\<close>

definition kernel_interrupted :: "nat sys_enter" where
  "kernel_interrupted c w =
     (if kernel w = 0 then (0, w\<lparr>kernel := 1\<rparr>)
      else (- 1, w\<lparr>errno := 4, kernel := Suc (kernel w)\<rparr>))"

text \<open>
  Parameters for a ring of depth 4 whose submission-ring head lies \<open>off\<close> bytes into
  the mapping, empty descriptors, and an \<^verbatim>\<open>mmap\<close> that fails with \<^verbatim>\<open>errno\<close>
  12 at the offset \<open>bad\<close> and maps at address \<open>0x7f0000000000\<close> plus the offset
  otherwise.
\<close>

definition params4 :: "u32 \<Rightarrow> io_uring_params" where
  "params4 off =
     \<lparr>sq_entries = 4, cq_entries = 8,
      sq_off = \<lparr>sqo_head = off, sqo_tail = off + 4, sqo_ring_mask = off + 8,
                sqo_ring_entries = off + 12, sqo_flags = off + 16, sqo_dropped = off + 20,
                sqo_array = off + 24\<rparr>,
      cq_off = \<lparr>cqo_head = 0, cqo_tail = 4, cqo_ring_mask = 8, cqo_ring_entries = 12,
                cqo_overflow = 16, cqo_events = 20\<rparr>\<rparr>"

definition sq_zeroed :: io_uring_sq_ptrs where
  "sq_zeroed =
     \<lparr>sqp_khead = 0, sqp_ktail = 0, sqp_kring_mask = 0, sqp_kring_entries = 0,
      sqp_kflags = 0, sqp_kdropped = 0, sqp_array = 0, sqp_iocbs = 0, sqp_iocb_head = 0,
      sqp_iocb_tail = 0, sqp_ring_sz = 0\<rparr>"

definition cq_zeroed :: io_uring_cq_ptrs where
  "cq_zeroed =
     \<lparr>cqp_khead = 0, cqp_ktail = 0, cqp_kring_mask = 0, cqp_kring_entries = 0,
      cqp_koverflow = 0, cqp_events = 0, cqp_ring_sz = 0\<rparr>"

definition mmap_failing_at :: "u64 \<Rightarrow> sys_mmap" where
  "mmap_failing_at bad len fd off ms =
     (if off = bad then Inl 12 else Inr (0x7f0000000000 + off))"

declare submit_loop.simps [simp del]

section \<open>Facts about 32-bit indices\<close>

lemma unat_u32_max: "unat (- 1 :: u32) = 4294967295"
  by (simp add: unsigned_minus_1_eq_mask mask_eq_exp_minus_1)

lemma u32_succ_le_iff:
  fixes d e :: u32
  assumes "d \<le> e" and "unat e < 4294967295"
  shows "d + 1 > e \<longleftrightarrow> d = e"
proof -
  have d: "unat d \<le> unat e" using assms(1) by (simp add: word_le_nat_alt)
  have "unat (d + 1) = unat d + 1"
    using assms(2) d by (simp add: unat_word_ariths)
  then have "d + 1 > e \<longleftrightarrow> unat e < unat d + 1"
    by (simp add: word_less_nat_alt)
  also have "\<dots> \<longleftrightarrow> unat d = unat e" using d by auto
  also have "\<dots> \<longleftrightarrow> d = e" by (simp add: word_unat_eq_iff)
  finally show ?thesis .
qed

lemma u32_gap_step:
  fixes kt kh :: u32
  assumes "unat (kt - kh) < 4294967295"
  shows "kt + 1 \<noteq> kh" and "unat (kt + 1 - kh) = unat (kt - kh) + 1"
proof -
  have eq: "kt + 1 - kh = (kt - kh) + 1" by simp
  show u: "unat (kt + 1 - kh) = unat (kt - kh) + 1"
    unfolding eq using assms by (simp add: unat_word_ariths)
  show "kt + 1 \<noteq> kh"
  proof
    assume "kt + 1 = kh"
    then have "kt + 1 - kh = 0" by simp
    with u show False by simp
  qed
qed

lemma u32_less_step:
  fixes h t :: u32
  assumes "h < t"
  shows "h + 1 \<le> t" and "unat (t - (h + 1)) + 1 = unat (t - h)"
  using assms by unat_arith+

section \<open>Slot acquisition\<close>

text \<open>
  Claim C2, amended. For every state of the submission ring, \<^verbatim>\<open>io_uring_get_iocb\<close>
  returns the null pointer exactly when \<^verbatim>\<open>iocb_tail + 1 - iocb_head\<close>, computed in
  32 bits, is greater than \<^verbatim>\<open>*kring_entries\<close>, and then leaves the descriptor as it
  was; otherwise it returns the slot \<^verbatim>\<open>iocb_tail & *kring_mask\<close> and advances
  \<^verbatim>\<open>iocb_tail\<close> by one. Where the occupancy \<^verbatim>\<open>iocb_tail - iocb_head\<close> is at most
  \<^verbatim>\<open>*kring_entries\<close> and \<^verbatim>\<open>*kring_entries\<close> is less than \<open>2\<^sup>3\<^sup>2 - 1\<close>, the null
  pointer is returned exactly when the occupancy equals the capacity.
\<close>
theorem get_iocb_algorithm:
  "(fst (io_uring_get_iocb sq) = None
      \<longleftrightarrow> iocb_tail sq + 1 - iocb_head sq > sq_kring_entries sq) \<and>
   (iocb_tail sq + 1 - iocb_head sq > sq_kring_entries sq
      \<longrightarrow> io_uring_get_iocb sq = (None, sq)) \<and>
   (\<not> iocb_tail sq + 1 - iocb_head sq > sq_kring_entries sq
      \<longrightarrow> io_uring_get_iocb sq
            = (Some (iocb_tail sq AND sq_kring_mask sq), sq\<lparr>iocb_tail := iocb_tail sq + 1\<rparr>)) \<and>
   (iocb_tail sq - iocb_head sq \<le> sq_kring_entries sq \<and>
    unat (sq_kring_entries sq) < 4294967295
      \<longrightarrow> (fst (io_uring_get_iocb sq) = None
             \<longleftrightarrow> iocb_tail sq - iocb_head sq = sq_kring_entries sq))"
proof -
  have test: "fst (io_uring_get_iocb sq) = None
                \<longleftrightarrow> iocb_tail sq + 1 - iocb_head sq > sq_kring_entries sq"
    by (simp add: io_uring_get_iocb_def Let_def)
  have full: "iocb_tail sq + 1 - iocb_head sq > sq_kring_entries sq
                \<longrightarrow> io_uring_get_iocb sq = (None, sq)"
    by (simp add: io_uring_get_iocb_def Let_def)
  have slot: "\<not> iocb_tail sq + 1 - iocb_head sq > sq_kring_entries sq
                \<longrightarrow> io_uring_get_iocb sq
                      = (Some (iocb_tail sq AND sq_kring_mask sq),
                         sq\<lparr>iocb_tail := iocb_tail sq + 1\<rparr>)"
    by (simp add: io_uring_get_iocb_def Let_def)
  have occ: "fst (io_uring_get_iocb sq) = None
               \<longleftrightarrow> iocb_tail sq - iocb_head sq = sq_kring_entries sq"
    if "iocb_tail sq - iocb_head sq \<le> sq_kring_entries sq"
      and "unat (sq_kring_entries sq) < 4294967295"
  proof -
    have eq: "iocb_tail sq + 1 - iocb_head sq = (iocb_tail sq - iocb_head sq) + 1" by simp
    have "iocb_tail sq + 1 - iocb_head sq > sq_kring_entries sq
            \<longleftrightarrow> iocb_tail sq - iocb_head sq = sq_kring_entries sq"
      unfolding eq using that by (rule u32_succ_le_iff)
    with test show ?thesis by simp
  qed
  from test full slot occ show ?thesis by blast
qed

theorem get_iocb_algorithm_witness:
  "iocb_tail (sq_depth4 0 0 7 11) + 1 - iocb_head (sq_depth4 0 0 7 11)
     > sq_kring_entries (sq_depth4 0 0 7 11) \<and>
   io_uring_get_iocb (sq_depth4 0 0 7 11) = (None, sq_depth4 0 0 7 11) \<and>
   \<not> iocb_tail (sq_depth4 0 0 7 10) + 1 - iocb_head (sq_depth4 0 0 7 10)
     > sq_kring_entries (sq_depth4 0 0 7 10) \<and>
   io_uring_get_iocb (sq_depth4 0 0 7 10) = (Some 2, sq_depth4 0 0 7 11) \<and>
   iocb_tail (sq_depth4 0 0 0xFFFFFFFF 3) - iocb_head (sq_depth4 0 0 0xFFFFFFFF 3)
     \<le> sq_kring_entries (sq_depth4 0 0 0xFFFFFFFF 3) \<and>
   unat (sq_kring_entries (sq_depth4 0 0 0xFFFFFFFF 3)) < 4294967295 \<and>
   iocb_tail (sq_depth4 0 0 0xFFFFFFFF 3) - iocb_head (sq_depth4 0 0 0xFFFFFFFF 3)
     = sq_kring_entries (sq_depth4 0 0 0xFFFFFFFF 3) \<and>
   fst (io_uring_get_iocb (sq_depth4 0 0 0xFFFFFFFF 3)) = None"
  using get_iocb_algorithm [of "sq_depth4 0 0 7 11"] get_iocb_algorithm [of "sq_depth4 0 0 7 10"]
    get_iocb_algorithm [of "sq_depth4 0 0 0xFFFFFFFF 3"]
  by (simp add: sq_depth4_def)

text \<open>
  Claim C2 as stated, with the test read as "occupancy equals capacity" for every state,
  does not hold in either direction: with a capacity of \<open>2\<^sup>3\<^sup>2 - 1\<close> and as many slots
  acquired, the occupancy equals the capacity and a slot is handed out; and a descriptor
  whose head is 5 and whose tail is 0 has occupancy \<open>2\<^sup>3\<^sup>2 - 5\<close>, not the capacity 4,
  and gets the null pointer.
\<close>
theorem get_iocb_algorithm_counterexample:
  "iocb_tail sq_max_entries - iocb_head sq_max_entries = sq_kring_entries sq_max_entries \<and>
   fst (io_uring_get_iocb sq_max_entries) = Some 0xFFFFFFFF \<and>
   iocb_tail (sq_depth4 0 0 5 0) - iocb_head (sq_depth4 0 0 5 0) = 0xFFFFFFFB \<and>
   sq_kring_entries (sq_depth4 0 0 5 0) = 4 \<and>
   fst (io_uring_get_iocb (sq_depth4 0 0 5 0)) = None"
  by (simp add: io_uring_get_iocb_def sq_max_entries_def sq_depth4_def)

text \<open>
  Claim C9. Whenever \<^verbatim>\<open>io_uring_get_iocb\<close> returns the null pointer, the descriptor
  after the call is the descriptor before it, field for field: the private indices, the
  kernel-visible head and tail and the indirection array are untouched.
\<close>
theorem get_iocb_full_unchanged:
  "fst (io_uring_get_iocb sq) = None \<Longrightarrow> snd (io_uring_get_iocb sq) = sq"
  by (simp add: io_uring_get_iocb_def Let_def split: if_splits)

theorem get_iocb_full_unchanged_witness:
  "fst (io_uring_get_iocb (sq_depth4 2 5 7 11)) = None \<and>
   snd (io_uring_get_iocb (sq_depth4 2 5 7 11)) = sq_depth4 2 5 7 11"
proof -
  have full: "fst (io_uring_get_iocb (sq_depth4 2 5 7 11)) = None"
    by (simp add: io_uring_get_iocb_def sq_depth4_def)
  from full get_iocb_full_unchanged [OF full] show ?thesis by simp
qed

text \<open>
  Claim C10, amended. If the occupancy \<^verbatim>\<open>iocb_tail - iocb_head\<close> (in wrapping 32-bit
  arithmetic) is at most \<^verbatim>\<open>*kring_entries\<close>, and \<^verbatim>\<open>*kring_entries\<close> is less than
  \<open>2\<^sup>3\<^sup>2 - 1\<close>, then the fullness test of \<^verbatim>\<open>io_uring_get_iocb\<close> is true, and the
  null pointer is returned, exactly when the occupancy equals \<^verbatim>\<open>*kring_entries\<close>;
  this holds wherever the free-running indices are on the 32-bit circle.
\<close>
theorem get_iocb_full_iff_occupancy:
  assumes "iocb_tail sq - iocb_head sq \<le> sq_kring_entries sq"
      and "unat (sq_kring_entries sq) < 4294967295"
  shows "(iocb_tail sq + 1 - iocb_head sq > sq_kring_entries sq
            \<longleftrightarrow> iocb_tail sq - iocb_head sq = sq_kring_entries sq) \<and>
         (fst (io_uring_get_iocb sq) = None
            \<longleftrightarrow> iocb_tail sq - iocb_head sq = sq_kring_entries sq)"
proof -
  have eq: "iocb_tail sq + 1 - iocb_head sq = (iocb_tail sq - iocb_head sq) + 1" by simp
  have test: "iocb_tail sq + 1 - iocb_head sq > sq_kring_entries sq
                \<longleftrightarrow> iocb_tail sq - iocb_head sq = sq_kring_entries sq"
    unfolding eq using assms by (rule u32_succ_le_iff)
  moreover have "fst (io_uring_get_iocb sq) = None
                   \<longleftrightarrow> iocb_tail sq + 1 - iocb_head sq > sq_kring_entries sq"
    by (simp add: io_uring_get_iocb_def Let_def)
  ultimately show ?thesis by simp
qed

theorem get_iocb_full_iff_occupancy_witness:
  "iocb_tail (sq_depth4 0 0 0xFFFFFFFE 2) - iocb_head (sq_depth4 0 0 0xFFFFFFFE 2)
     \<le> sq_kring_entries (sq_depth4 0 0 0xFFFFFFFE 2) \<and>
   unat (sq_kring_entries (sq_depth4 0 0 0xFFFFFFFE 2)) < 4294967295 \<and>
   iocb_tail (sq_depth4 0 0 0xFFFFFFFE 2) - iocb_head (sq_depth4 0 0 0xFFFFFFFE 2)
     = sq_kring_entries (sq_depth4 0 0 0xFFFFFFFE 2) \<and>
   fst (io_uring_get_iocb (sq_depth4 0 0 0xFFFFFFFE 2)) = None"
proof -
  have inv: "iocb_tail (sq_depth4 0 0 0xFFFFFFFE 2) - iocb_head (sq_depth4 0 0 0xFFFFFFFE 2)
               \<le> sq_kring_entries (sq_depth4 0 0 0xFFFFFFFE 2)"
    by (simp add: sq_depth4_def)
  have cap: "unat (sq_kring_entries (sq_depth4 0 0 0xFFFFFFFE 2)) < 4294967295"
    by (simp add: sq_depth4_def)
  have occ: "iocb_tail (sq_depth4 0 0 0xFFFFFFFE 2) - iocb_head (sq_depth4 0 0 0xFFFFFFFE 2)
               = sq_kring_entries (sq_depth4 0 0 0xFFFFFFFE 2)"
    by (simp add: sq_depth4_def)
  from inv cap occ get_iocb_full_iff_occupancy [OF inv cap] show ?thesis by simp
qed

text \<open>
  Claim C10 as stated does not hold for a capacity of \<open>2\<^sup>3\<^sup>2 - 1\<close>: with that many
  slots acquired the occupancy bound holds and the occupancy equals the capacity, but
  \<^verbatim>\<open>iocb_tail + 1 - iocb_head\<close> wraps to 0, the test is false and a slot is handed
  out.
\<close>
theorem get_iocb_full_iff_occupancy_counterexample:
  "iocb_tail sq_max_entries - iocb_head sq_max_entries \<le> sq_kring_entries sq_max_entries \<and>
   iocb_tail sq_max_entries - iocb_head sq_max_entries = sq_kring_entries sq_max_entries \<and>
   \<not> iocb_tail sq_max_entries + 1 - iocb_head sq_max_entries > sq_kring_entries sq_max_entries \<and>
   io_uring_get_iocb sq_max_entries = (Some 0xFFFFFFFF, sq_max_entries\<lparr>iocb_tail := 0\<rparr>)"
  by (simp add: io_uring_get_iocb_def sq_max_entries_def)

lemma get_iocb_keeps_occupancy:
  assumes "iocb_tail sq - iocb_head sq \<le> sq_kring_entries sq"
  shows "iocb_tail (snd (io_uring_get_iocb sq)) - iocb_head (snd (io_uring_get_iocb sq))
           \<le> sq_kring_entries (snd (io_uring_get_iocb sq))"
  using assms by (simp add: io_uring_get_iocb_def Let_def not_less)


section \<open>Submission\<close>

lemma emit_fields [simp]:
  "sq_ring (emit e w) = sq_ring w" "cq_ring (emit e w) = cq_ring w"
  "errno (emit e w) = errno w" "kernel (emit e w) = kernel w"
  "trace (emit e w) = trace w @ [e]"
  by (simp_all add: emit_def)

lemma barrier_fields [simp]:
  "sq_ring (read_barrier w) = sq_ring w" "cq_ring (read_barrier w) = cq_ring w"
  "errno (read_barrier w) = errno w" "kernel (read_barrier w) = kernel w"
  "sq_ring (write_barrier w) = sq_ring w" "cq_ring (write_barrier w) = cq_ring w"
  "errno (write_barrier w) = errno w" "kernel (write_barrier w) = kernel w"
  by (simp_all add: read_barrier_def write_barrier_def)

lemma store_sq_array_fields [simp]:
  "sq_ring (store_sq_array i v w) = (sq_ring w)\<lparr>sq_array := (sq_array (sq_ring w))(i := v)\<rparr>"
  "cq_ring (store_sq_array i v w) = cq_ring w" "errno (store_sq_array i v w) = errno w"
  "kernel (store_sq_array i v w) = kernel w"
  by (simp_all add: store_sq_array_def)

lemma store_sq_ktail_fields [simp]:
  "sq_ring (store_sq_ktail v w) = (sq_ring w)\<lparr>sq_ktail := v\<rparr>"
  "cq_ring (store_sq_ktail v w) = cq_ring w" "errno (store_sq_ktail v w) = errno w"
  "kernel (store_sq_ktail v w) = kernel w"
  by (simp_all add: store_sq_ktail_def)

text \<open>The loop writes the indirection array and \<^verbatim>\<open>iocb_head\<close>, and nothing else.\<close>

lemma submit_loop_frame:
  "sq_khead (sq_ring (fst (submit_loop msk w kt ktn sub))) = sq_khead (sq_ring w) \<and>
   sq_ktail (sq_ring (fst (submit_loop msk w kt ktn sub))) = sq_ktail (sq_ring w) \<and>
   sq_kring_mask (sq_ring (fst (submit_loop msk w kt ktn sub))) = sq_kring_mask (sq_ring w) \<and>
   sq_kring_entries (sq_ring (fst (submit_loop msk w kt ktn sub)))
     = sq_kring_entries (sq_ring w) \<and>
   iocb_tail (sq_ring (fst (submit_loop msk w kt ktn sub))) = iocb_tail (sq_ring w) \<and>
   cq_ring (fst (submit_loop msk w kt ktn sub)) = cq_ring w"
proof (induction msk w kt ktn sub rule: submit_loop.induct)
  case (1 msk w ktail ktail_next submitted)
  show ?case
  proof (cases "iocb_head (sq_ring w) < iocb_tail (sq_ring w)")
    case False
    then show ?thesis by (subst submit_loop.simps, simp)+
  next
    case lt: True
    show ?thesis
    proof (cases "ktail_next + 1 = sq_khead (sq_ring w)")
      case True
      with lt show ?thesis
        by (subst submit_loop.simps, simp)+
    next
      case False
      then have ne: "ktail_next + 1 \<noteq> sq_khead (sq_ring (read_barrier w))" by simp
      note IH = "1.IH" [OF lt refl refl ne refl refl refl refl]
      from lt False IH show ?thesis
        by (subst submit_loop.simps, simp add: Let_def)+
    qed
  qed
qed

text \<open>
  Entered with \<^verbatim>\<open>ktail_next == ktail\<close>, with the private head not above the
  private tail, and with the kernel-visible head more than the queued count ahead of
  \<^verbatim>\<open>ktail\<close> (counting around the 32-bit circle), the loop never takes its
  \<^verbatim>\<open>break\<close>: it publishes every queued descriptor.
\<close>

lemma submit_loop_run:
  assumes "ktn = kt"
      and "iocb_head (sq_ring w) \<le> iocb_tail (sq_ring w)"
      and "unat (kt - sq_khead (sq_ring w))
             + unat (iocb_tail (sq_ring w) - iocb_head (sq_ring w)) < 4294967296"
  shows "fst (snd (submit_loop msk w kt ktn sub))
           = kt + (iocb_tail (sq_ring w) - iocb_head (sq_ring w)) \<and>
         snd (snd (submit_loop msk w kt ktn sub))
           = sub + (iocb_tail (sq_ring w) - iocb_head (sq_ring w)) \<and>
         iocb_head (sq_ring (fst (submit_loop msk w kt ktn sub))) = iocb_tail (sq_ring w)"
  using assms
proof (induction msk w kt ktn sub rule: submit_loop.induct)
  case (1 msk w ktail ktail_next submitted)
  show ?case
  proof (cases "iocb_head (sq_ring w) < iocb_tail (sq_ring w)")
    case False
    with "1.prems"(2) have "iocb_head (sq_ring w) = iocb_tail (sq_ring w)" by simp
    then show ?thesis by (subst submit_loop.simps, simp)+
  next
    case lt: True
    note st = u32_less_step [OF lt]
    from st(2) "1.prems"(3) have gap: "unat (ktail - sq_khead (sq_ring w)) < 4294967295"
      by simp
    note gs = u32_gap_step [OF gap]
    from gs(1) "1.prems"(1)
    have ne: "ktail_next + 1 \<noteq> sq_khead (sq_ring (read_barrier w))" by simp
    let ?w' = "store_sq_array (ktail AND msk) (iocb_head (sq_ring (read_barrier w)) AND msk)
                 (read_barrier w)"
    let ?w'' = "?w'\<lparr>sq_ring := (sq_ring ?w')\<lparr>iocb_head := iocb_head (sq_ring ?w') + 1\<rparr>\<rparr>"
    have p2: "iocb_head (sq_ring ?w'') \<le> iocb_tail (sq_ring ?w'')"
      using st(1) by simp
    have p3: "unat (ktail_next + 1 - sq_khead (sq_ring ?w''))
              + unat (iocb_tail (sq_ring ?w'') - iocb_head (sq_ring ?w'')) < 4294967296"
      using gs(2) st(2) "1.prems"(1,3) by simp
    note IH = "1.IH" [OF lt refl refl ne refl refl refl refl refl p2 p3]
    have step: "submit_loop msk w ktail ktail_next submitted
                = submit_loop msk ?w'' (ktail_next + 1) (ktail_next + 1) (submitted + 1)"
      using lt ne by (subst submit_loop.simps) (simp add: Let_def)
    show ?thesis
      unfolding step using IH "1.prems"(1) by simp
  qed
qed

text \<open>With the private head above the private tail the loop body never runs.\<close>

lemma submit_loop_skip:
  "\<not> iocb_head (sq_ring w) < iocb_tail (sq_ring w)
     \<Longrightarrow> submit_loop msk w kt ktn sub = (w, kt, sub)"
  by (subst submit_loop.simps) simp

text \<open>
  On the publishing path the loop never meets its \<^verbatim>\<open>break\<close>, so it publishes the
  whole private occupancy: the new tail is the head plus the count, and the count is
  within the capacity whenever the occupancy was.
\<close>

lemma submit_publish_bounded:
  assumes "sq_khead (sq_ring w) = sq_ktail (sq_ring w)"
      and "iocb_tail (sq_ring w) - iocb_head (sq_ring w) \<le> sq_kring_entries (sq_ring w)"
      and "io_uring_submit_pre w = (w', Some n)"
      and "0 < n"
  shows "sq_ktail (sq_ring w') = sq_khead (sq_ring w) + n \<and>
         sq_khead (sq_ring w') = sq_khead (sq_ring w) \<and>
         sq_kring_entries (sq_ring w') = sq_kring_entries (sq_ring w) \<and>
         n \<le> sq_kring_entries (sq_ring w) \<and>
         sq_ktail (sq_ring w') - sq_khead (sq_ring w') \<le> sq_kring_entries (sq_ring w')"
proof -
  let ?w1 = "read_barrier w"
  let ?kt = "sq_ktail (sq_ring w)"
  let ?r = "submit_loop (sq_kring_mask (sq_ring w)) ?w1 ?kt ?kt 0"
  let ?d = "iocb_tail (sq_ring w) - iocb_head (sq_ring w)"
  from assms(1,3) have ne: "iocb_head (sq_ring w) \<noteq> iocb_tail (sq_ring w)"
    by (auto simp: io_uring_submit_pre_def Let_def)
  have lt: "iocb_head (sq_ring w) < iocb_tail (sq_ring w)"
  proof (rule ccontr)
    assume "\<not> iocb_head (sq_ring w) < iocb_tail (sq_ring w)"
    then have "?r = (?w1, ?kt, 0)" by (simp add: submit_loop_skip)
    with assms(1,3) ne show False
      by (simp add: io_uring_submit_pre_def Let_def)
  qed
  have bound: "unat (?kt - sq_khead (sq_ring ?w1))
                 + unat (iocb_tail (sq_ring ?w1) - iocb_head (sq_ring ?w1)) < 4294967296"
    using assms(1) unsigned_less [of ?d, where 'a = nat] by simp
  have le: "iocb_head (sq_ring ?w1) \<le> iocb_tail (sq_ring ?w1)" using lt by simp
  note run = submit_loop_run [OF refl le bound, of "sq_kring_mask (sq_ring w)" 0]
  note frame = submit_loop_frame [of "sq_kring_mask (sq_ring w)" ?w1 ?kt ?kt 0]
  from ne have d0: "?d \<noteq> 0" by auto
  from run have sub: "snd (snd ?r) = ?d" and kt: "fst (snd ?r) = ?kt + ?d" by simp_all
  from assms(1,3) ne sub kt d0 frame
  have n: "n = ?d" and w': "w' = write_barrier (store_sq_ktail (?kt + ?d) (write_barrier (fst ?r)))"
    by (auto simp: io_uring_submit_pre_def Let_def split: if_splits)
  from frame assms(1,2) show ?thesis
    unfolding n w' by simp
qed


text \<open>The occupancy bound is kept by the submit path too, first where it publishes.\<close>

lemma submit_publish_keeps_occupancy:
  assumes "iocb_tail (sq_ring w) - iocb_head (sq_ring w) \<le> sq_kring_entries (sq_ring w)"
      and "sq_khead (sq_ring w) = sq_ktail (sq_ring w)"
  shows "iocb_tail (sq_ring (fst (io_uring_submit_pre w)))
           - iocb_head (sq_ring (fst (io_uring_submit_pre w)))
           \<le> sq_kring_entries (sq_ring (fst (io_uring_submit_pre w)))"
proof (cases "iocb_head (sq_ring w) < iocb_tail (sq_ring w)")
  case False
  with assms show ?thesis
    by (simp add: io_uring_submit_pre_def Let_def submit_loop_skip)
next
  case lt: True
  let ?w1 = "read_barrier w"
  let ?kt = "sq_ktail (sq_ring w)"
  have bound: "unat (?kt - sq_khead (sq_ring ?w1))
                 + unat (iocb_tail (sq_ring ?w1) - iocb_head (sq_ring ?w1)) < 4294967296"
    using assms(2)
      unsigned_less [of "iocb_tail (sq_ring w) - iocb_head (sq_ring w)", where 'a = nat]
    by simp
  have le: "iocb_head (sq_ring ?w1) \<le> iocb_tail (sq_ring ?w1)" using lt by simp
  note run = submit_loop_run [OF refl le bound, of "sq_kring_mask (sq_ring w)" 0]
  note frame = submit_loop_frame [of "sq_kring_mask (sq_ring w)" ?w1 ?kt ?kt 0]
  from run frame lt assms(2) show ?thesis
    by (simp add: io_uring_submit_pre_def Let_def)
qed

lemma submit_pre_keeps_occupancy:
  assumes "iocb_tail (sq_ring w) - iocb_head (sq_ring w) \<le> sq_kring_entries (sq_ring w)"
  shows "iocb_tail (sq_ring (fst (io_uring_submit_pre w)))
           - iocb_head (sq_ring (fst (io_uring_submit_pre w)))
           \<le> sq_kring_entries (sq_ring (fst (io_uring_submit_pre w)))"
proof (cases "sq_khead (sq_ring w) = sq_ktail (sq_ring w)")
  case True
  with assms show ?thesis by (rule submit_publish_keeps_occupancy)
next
  case False
  with assms show ?thesis by (simp add: io_uring_submit_pre_def Let_def)
qed

text \<open>
  Every state a call can meet has its private occupancy within the capacity: the guard
  of \<^verbatim>\<open>io_uring_get_iocb\<close> establishes the bound and nothing else breaks it.
\<close>

lemma reachable_occupancy:
  "reachable w
     \<Longrightarrow> iocb_tail (sq_ring w) - iocb_head (sq_ring w) \<le> sq_kring_entries (sq_ring w)"
proof (induction rule: reachable.induct)
  case (reach_init w)
  then show ?case by simp
next
  case (reach_get_iocb w)
  then show ?case using get_iocb_keeps_occupancy [of "sq_ring w"] by simp
next
  case (reach_submit w)
  from reach_submit.IH show ?case by (rule submit_pre_keeps_occupancy)
next
  case (reach_other w w')
  then show ?case by (simp add: sq_private_def)
qed

text \<open>
  Claim C1. Take a call of \<^verbatim>\<open>io_uring_submit\<close>, in any state that a call can meet,
  that finds the kernel-visible head equal to the kernel-visible tail and reaches the
  system call with a positive count \<open>n\<close>, the kernel leaving the ring alone meanwhile.
  Then the kernel-visible tail it has published is the kernel-visible head plus \<open>n\<close>,
  the head and the capacity are as they were, and the new tail is not more than
  \<^verbatim>\<open>*kring_entries\<close> past the head.
\<close>
theorem submit_publish_tail:
  assumes "reachable w"
      and "sq_khead (sq_ring w) = sq_ktail (sq_ring w)"
      and "io_uring_submit_pre w = (w', Some n)"
      and "0 < n"
  shows "sq_ktail (sq_ring w') = sq_khead (sq_ring w) + n \<and>
         sq_khead (sq_ring w') = sq_khead (sq_ring w) \<and>
         sq_kring_entries (sq_ring w') = sq_kring_entries (sq_ring w) \<and>
         n \<le> sq_kring_entries (sq_ring w) \<and>
         sq_ktail (sq_ring w') - sq_khead (sq_ring w') \<le> sq_kring_entries (sq_ring w')"
  using assms(2) reachable_occupancy [OF assms(1)] assms(3,4)
  by (rule submit_publish_bounded)

lemma enter_calls_append [simp]:
  "enter_calls (es @ es') = enter_calls es @ enter_calls es'"
  by (induction es rule: enter_calls.induct) simp_all

lemmas submit_run_defs =
  io_uring_submit_pre_def submit_loop.simps Let_def world_of_def sq_depth4_def cq_depth4_def

text \<open>
  A history: the ring is created with the kernel's indices at \<open>2\<^sup>3\<^sup>2 - 2\<close>, and three
  slots are acquired.
\<close>

lemma reachable_three_acquired:
  "reachable (world_of (sq_depth4 0xFFFFFFFE 0xFFFFFFFE 0 3) (cq_depth4 0 0))"
proof -
  have r0: "reachable (world_of (sq_depth4 0xFFFFFFFE 0xFFFFFFFE 0 0) (cq_depth4 0 0))"
    by (rule reach_init) (simp_all add: world_of_def sq_depth4_def)
  from reach_get_iocb [OF r0]
  have r1: "reachable (world_of (sq_depth4 0xFFFFFFFE 0xFFFFFFFE 0 1) (cq_depth4 0 0))"
    by (simp add: io_uring_get_iocb_def world_of_def sq_depth4_def)
  from reach_get_iocb [OF r1]
  have r2: "reachable (world_of (sq_depth4 0xFFFFFFFE 0xFFFFFFFE 0 2) (cq_depth4 0 0))"
    by (simp add: io_uring_get_iocb_def world_of_def sq_depth4_def)
  from reach_get_iocb [OF r2]
  show ?thesis
    by (simp add: io_uring_get_iocb_def world_of_def sq_depth4_def)
qed

theorem submit_publish_tail_witness:
  "reachable (world_of (sq_depth4 0xFFFFFFFE 0xFFFFFFFE 0 3) (cq_depth4 0 0)) \<and>
   sq_khead (sq_ring (world_of (sq_depth4 0xFFFFFFFE 0xFFFFFFFE 0 3) (cq_depth4 0 0)))
     = sq_ktail (sq_ring (world_of (sq_depth4 0xFFFFFFFE 0xFFFFFFFE 0 3) (cq_depth4 0 0))) \<and>
   snd (io_uring_submit_pre (world_of (sq_depth4 0xFFFFFFFE 0xFFFFFFFE 0 3) (cq_depth4 0 0)))
     = Some 3 \<and>
   sq_ktail (sq_ring (fst (io_uring_submit_pre
       (world_of (sq_depth4 0xFFFFFFFE 0xFFFFFFFE 0 3) (cq_depth4 0 0))))) = 1"
proof -
  let ?w = "world_of (sq_depth4 0xFFFFFFFE 0xFFFFFFFE 0 3) (cq_depth4 0 0)"
  note reach = reachable_three_acquired
  have empty: "sq_khead (sq_ring ?w) = sq_ktail (sq_ring ?w)"
    by (simp add: world_of_def sq_depth4_def)
  have n: "snd (io_uring_submit_pre ?w) = Some 3"
    by (simp add: submit_run_defs)
  then have pre: "io_uring_submit_pre ?w = (fst (io_uring_submit_pre ?w), Some 3)"
    by (simp add: prod_eq_iff)
  have pos: "(0 :: u32) < 3" by simp
  from submit_publish_tail [OF reach empty pre pos]
  have "sq_ktail (sq_ring (fst (io_uring_submit_pre ?w))) = sq_khead (sq_ring ?w) + 3"
    by simp
  then have "sq_ktail (sq_ring (fst (io_uring_submit_pre ?w))) = 1"
    by (simp add: world_of_def sq_depth4_def)
  with reach empty n show ?thesis by simp
qed

text \<open>
  The bound belongs to the states a call can meet. A descriptor with 6 entries queued on
  a ring of capacity 4 is not one of them; from it, the loop, which compares the
  candidate tail with the kernel-visible head for equality only, publishes all 6.
\<close>

lemma submit_publish_overfull_descriptor:
  "\<not> reachable (world_of (sq_depth4 0 0 0 6) (cq_depth4 0 0)) \<and>
   snd (io_uring_submit_pre (world_of (sq_depth4 0 0 0 6) (cq_depth4 0 0))) = Some 6 \<and>
   sq_ktail (sq_ring (fst (io_uring_submit_pre (world_of (sq_depth4 0 0 0 6) (cq_depth4 0 0)))))
     = 6"
proof -
  have "\<not> reachable (world_of (sq_depth4 0 0 0 6) (cq_depth4 0 0))"
  proof
    assume "reachable (world_of (sq_depth4 0 0 0 6) (cq_depth4 0 0))"
    from reachable_occupancy [OF this] show False
      by (simp add: world_of_def sq_depth4_def)
  qed
  then show ?thesis by (simp add: submit_run_defs)
qed

text \<open>
  Claim C4. When the kernel-visible head and tail of the submission ring differ on
  entry, \<^verbatim>\<open>io_uring_submit\<close> goes straight to \<^verbatim>\<open>io_uring_enter\<close>: the state it
  makes the call in is the state on entry with only the fence recorded (no store to the
  indirection array or to the tail, no change of \<^verbatim>\<open>iocb_head\<close>), and the count
  passed as \<^verbatim>\<open>to_submit\<close> is the entry count recorded in the ring,
  \<^verbatim>\<open>*kring_entries\<close>.
\<close>
theorem submit_pending:
  assumes "sq_khead (sq_ring w) \<noteq> sq_ktail (sq_ring w)"
  shows "io_uring_submit_pre w
           = (w\<lparr>trace := trace w @ [Ev_read_barrier]\<rparr>, Some (sq_kring_entries (sq_ring w))) \<and>
         io_uring_submit syscall h fd w
           = io_uring_enter syscall fd (sq_kring_entries (sq_ring w)) 0
               (IORING_ENTER_GETEVENTS h) (w\<lparr>trace := trace w @ [Ev_read_barrier]\<rparr>)"
  using assms
  by (simp add: io_uring_submit_def io_uring_submit_pre_def Let_def read_barrier_def emit_def)

theorem submit_pending_witness:
  "sq_khead (sq_ring (world_of (sq_depth4 5 6 9 11) (cq_depth4 0 0)))
     \<noteq> sq_ktail (sq_ring (world_of (sq_depth4 5 6 9 11) (cq_depth4 0 0))) \<and>
   fst (io_uring_submit kernel_accepts linux_h 3 (world_of (sq_depth4 5 6 9 11) (cq_depth4 0 0)))
     = 4 \<and>
   sq_ring (snd (io_uring_submit kernel_accepts linux_h 3
       (world_of (sq_depth4 5 6 9 11) (cq_depth4 0 0)))) = sq_depth4 5 6 9 11 \<and>
   trace (snd (io_uring_submit kernel_accepts linux_h 3
       (world_of (sq_depth4 5 6 9 11) (cq_depth4 0 0))))
     = [Ev_read_barrier,
        Ev_enter \<lparr>enter_fd = 3, to_submit = 4, min_complete = 0, enter_flags = 1\<rparr>]"
proof -
  let ?w = "world_of (sq_depth4 5 6 9 11) (cq_depth4 0 0)"
  have pending: "sq_khead (sq_ring ?w) \<noteq> sq_ktail (sq_ring ?w)"
    by (simp add: world_of_def sq_depth4_def)
  from pending submit_pending [OF pending, of kernel_accepts linux_h 3] show ?thesis
    by (simp add: io_uring_enter_def kernel_accepts_def linux_h_def world_of_def sq_depth4_def)
qed

text \<open>
  Claim C5, amended. Whenever \<^verbatim>\<open>io_uring_submit\<close> reaches its label
  \<^verbatim>\<open>submit:\<close> with the count \<open>n\<close> in \<^verbatim>\<open>submitted\<close>, it makes exactly one
  system call, with \<^verbatim>\<open>to_submit\<close> \<open>n\<close>, \<^verbatim>\<open>min_complete\<close> 0 and the flag
  \<^verbatim>\<open>IORING_ENTER_GETEVENTS\<close>, and returns what that call returns.
\<close>
theorem submit_enter_arguments:
  assumes "io_uring_submit_pre w = (w', Some n)"
  shows "io_uring_submit syscall h fd w
           = (fst (syscall \<lparr>enter_fd = fd, to_submit = n, min_complete = 0,
                            enter_flags = IORING_ENTER_GETEVENTS h\<rparr> w'),
              (snd (syscall \<lparr>enter_fd = fd, to_submit = n, min_complete = 0,
                             enter_flags = IORING_ENTER_GETEVENTS h\<rparr> w'))
                \<lparr>trace := trace w' @ [Ev_enter \<lparr>enter_fd = fd, to_submit = n, min_complete = 0,
                                               enter_flags = IORING_ENTER_GETEVENTS h\<rparr>]\<rparr>)"
  using assms by (simp add: io_uring_submit_def io_uring_enter_def Let_def)

theorem submit_enter_arguments_witness:
  "snd (io_uring_submit_pre (world_of (sq_depth4 8 8 7 10) (cq_depth4 0 0))) = Some 3 \<and>
   fst (io_uring_submit kernel_accepts linux_h 3 (world_of (sq_depth4 8 8 7 10) (cq_depth4 0 0)))
     = 3 \<and>
   enter_calls (trace (snd (io_uring_submit kernel_accepts linux_h 3
       (world_of (sq_depth4 8 8 7 10) (cq_depth4 0 0)))))
     = [\<lparr>enter_fd = 3, to_submit = 3, min_complete = 0, enter_flags = 1\<rparr>]"
proof -
  let ?w = "world_of (sq_depth4 8 8 7 10) (cq_depth4 0 0)"
  have n: "snd (io_uring_submit_pre ?w) = Some 3"
    by (simp add: submit_run_defs)
  then have pre: "io_uring_submit_pre ?w = (fst (io_uring_submit_pre ?w), Some 3)"
    by (simp add: prod_eq_iff)
  have tr: "enter_calls (trace (fst (io_uring_submit_pre ?w))) = []"
    by (simp add: submit_run_defs read_barrier_def write_barrier_def emit_def
          store_sq_array_def store_sq_ktail_def)
  from n tr submit_enter_arguments [OF pre, of kernel_accepts linux_h 3] show ?thesis
    by (simp add: kernel_accepts_def linux_h_def)
qed

text \<open>
  Claim C5 as stated does not hold: the one system call of a submit of three queued
  entries has \<^verbatim>\<open>min_complete\<close> 0, which asks for no completion at all.
\<close>
theorem submit_min_complete_counterexample:
  "enter_calls (trace (snd (io_uring_submit kernel_accepts linux_h 3
       (world_of (sq_depth4 8 8 7 10) (cq_depth4 0 0)))))
     = [\<lparr>enter_fd = 3, to_submit = 3, min_complete = 0, enter_flags = 1\<rparr>] \<and>
   \<not> 1 \<le> min_complete (hd (enter_calls (trace (snd (io_uring_submit kernel_accepts linux_h 3
       (world_of (sq_depth4 8 8 7 10) (cq_depth4 0 0)))))))"
  by (simp add: io_uring_submit_def io_uring_enter_def submit_run_defs read_barrier_def
        write_barrier_def emit_def store_sq_array_def store_sq_ktail_def kernel_accepts_def
        linux_h_def)

text \<open>
  Claim C8. When the kernel-visible head equals the kernel-visible tail and
  \<^verbatim>\<open>iocb_head\<close> equals \<^verbatim>\<open>iocb_tail\<close>, \<^verbatim>\<open>io_uring_submit\<close> returns 0 whatever
  the kernel is; the state it leaves is the state on entry with one fence recorded: no
  system call, no store, both rings as they were.
\<close>
theorem submit_nothing_queued:
  assumes "sq_khead (sq_ring w) = sq_ktail (sq_ring w)"
      and "iocb_head (sq_ring w) = iocb_tail (sq_ring w)"
  shows "io_uring_submit syscall h fd w = (0, w\<lparr>trace := trace w @ [Ev_read_barrier]\<rparr>)"
  using assms
  by (simp add: io_uring_submit_def io_uring_submit_pre_def Let_def read_barrier_def emit_def)

theorem submit_nothing_queued_witness:
  "sq_khead (sq_ring (world_of (sq_depth4 6 6 9 9) (cq_depth4 0 0)))
     = sq_ktail (sq_ring (world_of (sq_depth4 6 6 9 9) (cq_depth4 0 0))) \<and>
   iocb_head (sq_ring (world_of (sq_depth4 6 6 9 9) (cq_depth4 0 0)))
     = iocb_tail (sq_ring (world_of (sq_depth4 6 6 9 9) (cq_depth4 0 0))) \<and>
   io_uring_submit kernel_accepts linux_h 3 (world_of (sq_depth4 6 6 9 9) (cq_depth4 0 0))
     = (0, \<lparr>sq_ring = sq_depth4 6 6 9 9, cq_ring = cq_depth4 0 0, errno = 0, kernel = 0,
            trace = [Ev_read_barrier]\<rparr>)"
proof -
  let ?w = "world_of (sq_depth4 6 6 9 9) (cq_depth4 0 0)"
  have empty: "sq_khead (sq_ring ?w) = sq_ktail (sq_ring ?w)"
    by (simp add: world_of_def sq_depth4_def)
  have none: "iocb_head (sq_ring ?w) = iocb_tail (sq_ring ?w)"
    by (simp add: world_of_def sq_depth4_def)
  from empty none submit_nothing_queued [OF empty none, of kernel_accepts linux_h 3]
  show ?thesis by (simp add: world_of_def)
qed

section \<open>Completion retrieval\<close>

lemma store_cq_khead_fields [simp]:
  "sq_ring (store_cq_khead v w) = sq_ring w"
  "cq_ring (store_cq_khead v w) = (cq_ring w)\<lparr>cq_khead := v\<rparr>"
  "errno (store_cq_khead v w) = errno w" "kernel (store_cq_khead v w) = kernel w"
  by (simp_all add: store_cq_khead_def)

lemma io_uring_enter_fields [simp]:
  "fst (io_uring_enter syscall fd n m f w)
     = fst (syscall \<lparr>enter_fd = fd, to_submit = n, min_complete = m, enter_flags = f\<rparr> w)"
  "cq_ring (snd (io_uring_enter syscall fd n m f w))
     = cq_ring (snd (syscall \<lparr>enter_fd = fd, to_submit = n, min_complete = m, enter_flags = f\<rparr> w))"
  "sq_ring (snd (io_uring_enter syscall fd n m f w))
     = sq_ring (snd (syscall \<lparr>enter_fd = fd, to_submit = n, min_complete = m, enter_flags = f\<rparr> w))"
  "errno (snd (io_uring_enter syscall fd n m f w))
     = errno (snd (syscall \<lparr>enter_fd = fd, to_submit = n, min_complete = m, enter_flags = f\<rparr> w))"
  by (simp_all add: io_uring_enter_def Let_def)

text \<open>
  Every way out of the loop, after any number of system calls, provided the kernel never
  writes the consumer head of the completion ring: the head is as on entry; an exit
  through \<^verbatim>\<open>return -errno\<close> returns the negated \<^verbatim>\<open>errno\<close> of the state that
  a failed system call has just left; an exit through \<^verbatim>\<open>break\<close> has found
  \<^verbatim>\<open>head\<close> different from the tail.
\<close>

lemma get_completion_loop_exit:
  assumes run: "get_completion_loop syscall h fd msk head w = Some y"
      and frame: "\<And>c w. cq_khead (cq_ring (snd (syscall c w))) = cq_khead (cq_ring w)"
  shows "cq_khead (cq_ring (snd y)) = cq_khead (cq_ring w) \<and>
         (case fst y of
            Loop_return ret \<Rightarrow>
              ret = - errno (snd y) \<and>
              (\<exists>w0. fst (io_uring_enter syscall fd 0 1 (IORING_ENTER_GETEVENTS h) w0) < 0 \<and>
                    snd (io_uring_enter syscall fd 0 1 (IORING_ENTER_GETEVENTS h) w0) = snd y)
          | Loop_break i \<Rightarrow> i = head AND msk \<and> head \<noteq> cq_ktail (cq_ring (snd y)))"
  using frame
proof (induct rule: get_completion_loop.raw_induct [OF _ run])
  case (1 loop syscall h fd msk head w y)
  let ?w1 = "read_barrier w"
  let ?r = "io_uring_enter syscall fd 0 1 (IORING_ENTER_GETEVENTS h) ?w1"
  show ?case
  proof (cases "head \<noteq> cq_ktail (cq_ring w)")
    case True
    with "1.hyps"(2) have "y = (Loop_break (head AND msk), ?w1)"
      by (simp add: Let_def)
    with True show ?thesis by simp
  next
    case empty: False
    show ?thesis
    proof (cases "fst ?r < 0")
      case True
      with empty "1.hyps"(2) have y: "y = (Loop_return (- errno (snd ?r)), snd ?r)"
        by (simp add: Let_def)
      have "cq_khead (cq_ring (snd ?r)) = cq_khead (cq_ring w)"
        using "1.prems" by simp
      moreover have "\<exists>w0. fst (io_uring_enter syscall fd 0 1 (IORING_ENTER_GETEVENTS h) w0) < 0 \<and>
                    snd (io_uring_enter syscall fd 0 1 (IORING_ENTER_GETEVENTS h) w0) = snd ?r"
        using True by blast
      ultimately show ?thesis unfolding y by simp
    next
      case False
      with empty "1.hyps"(2) have "loop syscall h fd msk head (snd ?r) = Some y"
        by (simp add: Let_def)
      from "1.hyps"(1) [OF this "1.prems"] "1.prems" show ?thesis by simp
    qed
  qed
qed

text \<open>The iteration in which the system call fails is the last one.\<close>

lemma get_completion_loop_fails_now:
  assumes "head = cq_ktail (cq_ring w)"
      and "fst (io_uring_enter syscall fd 0 1 (IORING_ENTER_GETEVENTS h) (read_barrier w)) < 0"
  shows "get_completion_loop syscall h fd msk head w
           = Some (Loop_return
                     (- errno (snd (io_uring_enter syscall fd 0 1 (IORING_ENTER_GETEVENTS h)
                                      (read_barrier w)))),
                   snd (io_uring_enter syscall fd 0 1 (IORING_ENTER_GETEVENTS h)
                          (read_barrier w)))"
  using assms by (subst get_completion_loop.simps) (simp add: Let_def)

text \<open>
  Claim C3. When the consumer head of the completion ring differs from the
  kernel-visible tail, \<^verbatim>\<open>io_uring_get_completion\<close> returns 0 without a system call,
  stores in \<^verbatim>\<open>*ev_ptr\<close> a non-null pointer to the record at index
  \<^verbatim>\<open>head & *kring_mask\<close>, and leaves a state that differs from the one on entry in
  the consumer head, which is one more, and in the events: the fence before the
  comparison, the store of the head, the fence after it.
\<close>

theorem get_completion_visible:
  assumes "cq_khead (cq_ring w) \<noteq> cq_ktail (cq_ring w)"
  shows "io_uring_get_completion syscall h fd w ev_ptr
           = Some (0,
                   w\<lparr>cq_ring := (cq_ring w)\<lparr>cq_khead := cq_khead (cq_ring w) + 1\<rparr>,
                     trace := trace w @ [Ev_read_barrier,
                                         Ev_store_cq_khead (cq_khead (cq_ring w) + 1),
                                         Ev_write_barrier]\<rparr>,
                   Some (cq_khead (cq_ring w) AND cq_kring_mask (cq_ring w)))"
proof -
  have "get_completion_loop syscall h fd (cq_kring_mask (cq_ring w)) (cq_khead (cq_ring w)) w
          = Some (Loop_break (cq_khead (cq_ring w) AND cq_kring_mask (cq_ring w)),
                  read_barrier w)"
    using assms by (subst get_completion_loop.simps) (simp add: Let_def)
  then show ?thesis
    by (simp add: io_uring_get_completion_def Let_def read_barrier_def write_barrier_def
          store_cq_khead_def emit_def)
qed

theorem get_completion_visible_witness:
  "cq_khead (cq_ring (world_of (sq_depth4 0 0 0 0) (cq_depth4 0xFFFFFFFF 1)))
     \<noteq> cq_ktail (cq_ring (world_of (sq_depth4 0 0 0 0) (cq_depth4 0xFFFFFFFF 1))) \<and>
   io_uring_get_completion kernel_interrupted linux_h 3
       (world_of (sq_depth4 0 0 0 0) (cq_depth4 0xFFFFFFFF 1)) None
     = Some (0,
             \<lparr>sq_ring = sq_depth4 0 0 0 0, cq_ring = cq_depth4 0 1, errno = 0, kernel = 0,
              trace = [Ev_read_barrier, Ev_store_cq_khead 0, Ev_write_barrier]\<rparr>,
             Some 3)"
proof -
  let ?w = "world_of (sq_depth4 0 0 0 0) (cq_depth4 0xFFFFFFFF 1)"
  have visible: "cq_khead (cq_ring ?w) \<noteq> cq_ktail (cq_ring ?w)"
    by (simp add: world_of_def cq_depth4_def)
  from visible get_completion_visible [OF visible, of kernel_interrupted linux_h 3 None]
  show ?thesis by (simp add: world_of_def cq_depth4_def)
qed

text \<open>
  The same for a call that had to wait: whenever the loop is left through its
  \<^verbatim>\<open>break\<close>, after any number of system calls, the function returns 0 and the
  record at \<^verbatim>\<open>head & *kring_mask\<close>, and the consumer head is one more than on entry.
\<close>

lemma get_completion_success:
  assumes frame: "\<And>c w. cq_khead (cq_ring (snd (syscall c w))) = cq_khead (cq_ring w)"
      and found: "get_completion_loop syscall h fd (cq_kring_mask (cq_ring w))
                    (cq_khead (cq_ring w)) w = Some (Loop_break i, w')"
  shows "fst (the (io_uring_get_completion syscall h fd w ev_ptr)) = 0 \<and>
         snd (snd (the (io_uring_get_completion syscall h fd w ev_ptr)))
           = Some (cq_khead (cq_ring w) AND cq_kring_mask (cq_ring w)) \<and>
         cq_khead (cq_ring (fst (snd (the (io_uring_get_completion syscall h fd w ev_ptr)))))
           = cq_khead (cq_ring w) + 1"
  using get_completion_loop_exit [OF found frame] found
  by (simp add: io_uring_get_completion_def Let_def)

text \<open>
  A call that waits through \<open>k\<close> rounds and then meets a failing system call leaves
  the loop there, with the negated \<^verbatim>\<open>errno\<close> and the state that the failed call
  left.
\<close>

lemma get_completion_loop_enter_fails:
  "enter_fails syscall h fd head k w \<Longrightarrow>
     get_completion_loop syscall h fd msk head w
       = Some (Loop_return (- errno (after_enters syscall h fd (Suc k) w)),
               after_enters syscall h fd (Suc k) w)"
proof (induction k arbitrary: w)
  case 0
  then show ?case by (subst get_completion_loop.simps) (simp add: Let_def)
next
  case (Suc k)
  let ?w1 = "snd (io_uring_enter syscall fd 0 1 (IORING_ENTER_GETEVENTS h) (read_barrier w))"
  from Suc.prems [unfolded enter_fails.simps]
  have empty: "head = cq_ktail (cq_ring w)"
    and ok: "\<not> fst (io_uring_enter syscall fd 0 1 (IORING_ENTER_GETEVENTS h) (read_barrier w))
               < 0"
    and rest: "enter_fails syscall h fd head k ?w1"
    by blast+
  have "get_completion_loop syscall h fd msk head w
          = get_completion_loop syscall h fd msk head ?w1"
    using empty ok by (subst get_completion_loop.simps) (simp add: Let_def)
  with Suc.IH [OF rest] show ?case by simp
qed

lemma after_enters_khead:
  assumes "\<And>c w. cq_khead (cq_ring (snd (syscall c w))) = cq_khead (cq_ring w)"
  shows "cq_khead (cq_ring (after_enters syscall h fd k w)) = cq_khead (cq_ring w)"
  using assms by (induction k arbitrary: w) simp_all

text \<open>
  Claim C6. Take a call of \<^verbatim>\<open>io_uring_get_completion\<close> in which the system call
  fails: the first \<open>k\<close> system calls of the loop return without a completion becoming
  visible, and the next one returns a negative value. Then the call returns at once:
  its value is the negated \<^verbatim>\<open>errno\<close>, the state is exactly the one that the failed
  system call left, and \<^verbatim>\<open>*ev_ptr\<close> is not written. If the kernel never writes the
  consumer head of the completion ring, \<^verbatim>\<open>*cq->khead\<close> is what it was on entry.
\<close>

theorem get_completion_enter_fails:
  assumes frame: "\<And>c w. cq_khead (cq_ring (snd (syscall c w))) = cq_khead (cq_ring w)"
      and fails: "enter_fails syscall h fd (cq_khead (cq_ring w)) k w"
  shows "io_uring_get_completion syscall h fd w ev_ptr
           = Some (- errno (after_enters syscall h fd (Suc k) w),
                   after_enters syscall h fd (Suc k) w, ev_ptr) \<and>
         cq_khead (cq_ring (after_enters syscall h fd (Suc k) w)) = cq_khead (cq_ring w)"
proof
  from get_completion_loop_enter_fails [OF fails, of "cq_kring_mask (cq_ring w)"]
  show "io_uring_get_completion syscall h fd w ev_ptr
           = Some (- errno (after_enters syscall h fd (Suc k) w),
                   after_enters syscall h fd (Suc k) w, ev_ptr)"
    by (simp add: io_uring_get_completion_def Let_def)
  from frame
  show "cq_khead (cq_ring (after_enters syscall h fd (Suc k) w)) = cq_khead (cq_ring w)"
    by (rule after_enters_khead)
qed

lemmas wait_run_defs =
  io_uring_enter_def kernel_interrupted_def world_of_def cq_depth4_def linux_h_def
  read_barrier_def emit_def Let_def

theorem get_completion_enter_fails_witness:
  "enter_fails kernel_interrupted linux_h 3
       (cq_khead (cq_ring (world_of (sq_depth4 0 0 0 0) (cq_depth4 7 7)))) (Suc 0)
       (world_of (sq_depth4 0 0 0 0) (cq_depth4 7 7)) \<and>
   io_uring_get_completion kernel_interrupted linux_h 3
       (world_of (sq_depth4 0 0 0 0) (cq_depth4 7 7)) (Some 2)
     = Some (- 4,
             \<lparr>sq_ring = sq_depth4 0 0 0 0, cq_ring = cq_depth4 7 7, errno = 4, kernel = 2,
              trace = [Ev_read_barrier,
                       Ev_enter \<lparr>enter_fd = 3, to_submit = 0, min_complete = 1,
                                 enter_flags = 1\<rparr>,
                       Ev_read_barrier,
                       Ev_enter \<lparr>enter_fd = 3, to_submit = 0, min_complete = 1,
                                 enter_flags = 1\<rparr>]\<rparr>,
             Some 2) \<and>
   cq_khead (cq_ring (after_enters kernel_interrupted linux_h 3 (Suc (Suc 0))
                        (world_of (sq_depth4 0 0 0 0) (cq_depth4 7 7)))) = 7"
proof -
  let ?w = "world_of (sq_depth4 0 0 0 0) (cq_depth4 7 7)"
  let ?w' = "\<lparr>sq_ring = sq_depth4 0 0 0 0, cq_ring = cq_depth4 7 7, errno = 4, kernel = 2,
              trace = [Ev_read_barrier,
                       Ev_enter \<lparr>enter_fd = 3, to_submit = 0, min_complete = 1,
                                 enter_flags = 1\<rparr>,
                       Ev_read_barrier,
                       Ev_enter \<lparr>enter_fd = 3, to_submit = 0, min_complete = 1,
                                 enter_flags = 1\<rparr>]\<rparr>"
  have frame: "\<And>c w. cq_khead (cq_ring (snd (kernel_interrupted c w))) = cq_khead (cq_ring w)"
    by (simp add: kernel_interrupted_def)
  have fails: "enter_fails kernel_interrupted linux_h 3 (cq_khead (cq_ring ?w)) (Suc 0) ?w"
    by (simp add: wait_run_defs)
  have left: "after_enters kernel_interrupted linux_h 3 (Suc (Suc 0)) ?w = ?w'"
    by (simp add: wait_run_defs)
  have errno: "errno ?w' = 4" and head: "cq_khead (cq_ring ?w) = 7"
    by (simp_all add: world_of_def cq_depth4_def)
  note call = get_completion_enter_fails [OF frame fails, of "Some 2", unfolded left errno head]
  from fails call show ?thesis
    by (simp only: left simp_thms)
qed

section \<open>The library's calls stay within the states a call can meet\<close>

text \<open>
  With a kernel that leaves the private indices and the recorded capacity alone, a whole
  \<^verbatim>\<open>io_uring_submit\<close> and a whole \<^verbatim>\<open>io_uring_get_completion\<close> lead from states
  a call can meet to such states.
\<close>

lemma sq_private_fields [simp]:
  "sq_private (emit e w) = sq_private w"
  "sq_private (read_barrier w) = sq_private w"
  "sq_private (write_barrier w) = sq_private w"
  "sq_private (store_cq_khead v w) = sq_private w"
  "sq_private (snd (io_uring_enter syscall fd n m f w))
     = sq_private (snd (syscall \<lparr>enter_fd = fd, to_submit = n, min_complete = m,
                                  enter_flags = f\<rparr> w))"
  by (simp_all add: sq_private_def)

lemma reachable_submit:
  assumes "reachable w"
      and frame: "\<And>c v. sq_private (snd (syscall c v)) = sq_private v"
  shows "reachable (snd (io_uring_submit syscall h fd w))"
proof (cases "snd (io_uring_submit_pre w)")
  case None
  then have "snd (io_uring_submit syscall h fd w) = fst (io_uring_submit_pre w)"
    by (cases "io_uring_submit_pre w") (simp add: io_uring_submit_def)
  with reach_submit [OF assms(1)] show ?thesis by simp
next
  case (Some n)
  let ?w1 = "fst (io_uring_submit_pre w)"
  from Some have "snd (io_uring_submit syscall h fd w)
                    = snd (io_uring_enter syscall fd n 0 (IORING_ENTER_GETEVENTS h) ?w1)"
    by (cases "io_uring_submit_pre w") (simp add: io_uring_submit_def)
  moreover have "reachable (snd (io_uring_enter syscall fd n 0 (IORING_ENTER_GETEVENTS h) ?w1))"
    using reach_submit [OF assms(1)] by (rule reach_other) (simp add: frame)
  ultimately show ?thesis by simp
qed

lemma get_completion_loop_private:
  assumes run: "get_completion_loop syscall h fd msk head w = Some y"
      and frame: "\<And>c v. sq_private (snd (syscall c v)) = sq_private v"
  shows "sq_private (snd y) = sq_private w"
  using frame
proof (induct rule: get_completion_loop.raw_induct [OF _ run])
  case (1 loop syscall h fd msk head w y)
  let ?w1 = "read_barrier w"
  let ?r = "io_uring_enter syscall fd 0 1 (IORING_ENTER_GETEVENTS h) ?w1"
  show ?case
  proof (cases "head \<noteq> cq_ktail (cq_ring w)")
    case True
    with "1.hyps"(2) have "y = (Loop_break (head AND msk), ?w1)"
      by (simp add: Let_def)
    then show ?thesis by simp
  next
    case empty: False
    have left: "sq_private (snd ?r) = sq_private w"
      using "1.prems" by simp
    show ?thesis
    proof (cases "fst ?r < 0")
      case True
      with empty "1.hyps"(2) have "y = (Loop_return (- errno (snd ?r)), snd ?r)"
        by (simp add: Let_def)
      with left show ?thesis by simp
    next
      case False
      with empty "1.hyps"(2) have "loop syscall h fd msk head (snd ?r) = Some y"
        by (simp add: Let_def)
      from "1.hyps"(1) [OF this "1.prems"] left show ?thesis by simp
    qed
  qed
qed

lemma reachable_get_completion:
  assumes "reachable w"
      and frame: "\<And>c v. sq_private (snd (syscall c v)) = sq_private v"
      and ret: "io_uring_get_completion syscall h fd w ev_ptr = Some (r, w', ev_ptr')"
  shows "reachable w'"
proof -
  from ret obtain y
    where run: "get_completion_loop syscall h fd (cq_kring_mask (cq_ring w))
                  (cq_khead (cq_ring w)) w = Some y"
    by (auto simp: io_uring_get_completion_def Let_def split: option.splits)
  from get_completion_loop_private [OF run frame]
  have "sq_private (snd y) = sq_private w" .
  with ret run have "sq_private w' = sq_private w"
    by (cases y; cases "fst y")
       (auto simp: io_uring_get_completion_def Let_def split: if_splits)
  with assms(1) show ?thesis by (rule reach_other)
qed

section \<open>Ring initialization\<close>

lemmas mmap_run_defs =
  io_uring_mmap_def mmap_def munmap_def mmap_failing_at_def linux_h_def params4_def
  sq_zeroed_def cq_zeroed_def Let_def MAP_FAILED_def

text \<open>
  Claim C7, amended. Let the kernel report the head of the submission ring at offset 0
  of its mapping, so that \<^verbatim>\<open>sq->khead\<close> is the address of the mapping. Then at
  whichever of the three \<^verbatim>\<open>mmap\<close> calls \<^verbatim>\<open>io_uring_mmap\<close> fails, with
  \<^verbatim>\<open>errno\<close> \<open>e\<close>, it returns \<open>- e\<close> and the mappings in force on return are those
  in force on entry: a failure of the first call leaves nothing to release, a failure
  of the descriptor mapping releases the submission ring, a failure of the completion
  ring mapping releases the descriptor buffer and the submission ring.
\<close>

theorem mmap_failure_releases:
  fixes p :: io_uring_params and h :: io_uring_h
  defines "sq_sz \<equiv> (ucast (sqo_array (sq_off p)) :: u64) + ucast (sq_entries p) * 4"
      and "iocb_sz \<equiv> (ucast (sq_entries p) :: u64) * sizeof_io_uring_iocb h"
      and "cq_sz \<equiv> (ucast (cqo_events (cq_off p)) :: u64)
                      + ucast (cq_entries p) * sizeof_io_uring_event h"
  assumes head0: "sqo_head (sq_off p) = 0"
  shows "(kmap sq_sz fd (IORING_OFF_SQ_RING h) ms = Inl e \<longrightarrow>
            fst (io_uring_mmap kmap h fd p sq cq ms) = - e \<and>
            snd (snd (snd (io_uring_mmap kmap h fd p sq cq ms))) = ms) \<and>
         (kmap sq_sz fd (IORING_OFF_SQ_RING h) ms = Inr a \<and>
          kmap iocb_sz fd (IORING_OFF_IOCB h) ((a, sq_sz) # ms) = Inl e \<longrightarrow>
            fst (io_uring_mmap kmap h fd p sq cq ms) = - e \<and>
            snd (snd (snd (io_uring_mmap kmap h fd p sq cq ms))) = ms) \<and>
         (kmap sq_sz fd (IORING_OFF_SQ_RING h) ms = Inr a \<and>
          kmap iocb_sz fd (IORING_OFF_IOCB h) ((a, sq_sz) # ms) = Inr b \<and>
          kmap cq_sz fd (IORING_OFF_CQ_RING h) ((b, iocb_sz) # (a, sq_sz) # ms) = Inl e \<longrightarrow>
            fst (io_uring_mmap kmap h fd p sq cq ms) = - e \<and>
            snd (snd (snd (io_uring_mmap kmap h fd p sq cq ms))) = ms)"
proof (intro conjI impI)
  assume "kmap sq_sz fd (IORING_OFF_SQ_RING h) ms = Inl e"
  then show "fst (io_uring_mmap kmap h fd p sq cq ms) = - e"
    and "snd (snd (snd (io_uring_mmap kmap h fd p sq cq ms))) = ms"
    by (simp_all add: io_uring_mmap_def mmap_def Let_def sq_sz_def)
next
  assume "kmap sq_sz fd (IORING_OFF_SQ_RING h) ms = Inr a \<and>
          kmap iocb_sz fd (IORING_OFF_IOCB h) ((a, sq_sz) # ms) = Inl e"
  with head0 show "fst (io_uring_mmap kmap h fd p sq cq ms) = - e"
    and "snd (snd (snd (io_uring_mmap kmap h fd p sq cq ms))) = ms"
    by (simp_all add: io_uring_mmap_def mmap_def munmap_def Let_def sq_sz_def iocb_sz_def)
next
  assume "kmap sq_sz fd (IORING_OFF_SQ_RING h) ms = Inr a \<and>
          kmap iocb_sz fd (IORING_OFF_IOCB h) ((a, sq_sz) # ms) = Inr b \<and>
          kmap cq_sz fd (IORING_OFF_CQ_RING h) ((b, iocb_sz) # (a, sq_sz) # ms) = Inl e"
  with head0 show "fst (io_uring_mmap kmap h fd p sq cq ms) = - e"
    and "snd (snd (snd (io_uring_mmap kmap h fd p sq cq ms))) = ms"
    by (simp_all add: io_uring_mmap_def mmap_def munmap_def Let_def sq_sz_def iocb_sz_def
          cq_sz_def)
qed

theorem mmap_failure_releases_witness:
  "sqo_head (sq_off (params4 0)) = 0 \<and>
   mmap_failing_at 0 40 3 0 [] = Inl 12 \<and>
   fst (io_uring_mmap (mmap_failing_at 0) linux_h 3 (params4 0) sq_zeroed cq_zeroed [])
     = - 12 \<and>
   snd (snd (snd (io_uring_mmap (mmap_failing_at 0) linux_h 3 (params4 0) sq_zeroed
                    cq_zeroed []))) = [] \<and>
   mmap_failing_at 0x10000000 40 3 0 [] = Inr 0x7f0000000000 \<and>
   mmap_failing_at 0x10000000 256 3 0x10000000 [(0x7f0000000000, 40)] = Inl 12 \<and>
   fst (io_uring_mmap (mmap_failing_at 0x10000000) linux_h 3 (params4 0) sq_zeroed cq_zeroed [])
     = - 12 \<and>
   snd (snd (snd (io_uring_mmap (mmap_failing_at 0x10000000) linux_h 3 (params4 0) sq_zeroed
                    cq_zeroed []))) = [] \<and>
   mmap_failing_at 0x8000000 40 3 0 [] = Inr 0x7f0000000000 \<and>
   mmap_failing_at 0x8000000 256 3 0x10000000 [(0x7f0000000000, 40)] = Inr 0x7f0010000000 \<and>
   mmap_failing_at 0x8000000 148 3 0x8000000 [(0x7f0010000000, 256), (0x7f0000000000, 40)]
     = Inl 12 \<and>
   fst (io_uring_mmap (mmap_failing_at 0x8000000) linux_h 3 (params4 0) sq_zeroed cq_zeroed [])
     = - 12 \<and>
   snd (snd (snd (io_uring_mmap (mmap_failing_at 0x8000000) linux_h 3 (params4 0) sq_zeroed
                    cq_zeroed []))) = []"
proof -
  have head0: "sqo_head (sq_off (params4 0)) = 0"
    by (simp add: params4_def)
  note stage =
    mmap_failure_releases [OF head0, where h = linux_h and fd = 3 and ms = "[]" and e = 12
      and sq = sq_zeroed and cq = cq_zeroed]
  from head0
    stage [of "mmap_failing_at 0"]
    stage [of "mmap_failing_at 0x10000000" "0x7f0000000000"]
    stage [of "mmap_failing_at 0x8000000" "0x7f0000000000" "0x7f0010000000"]
  show ?thesis
    by (simp add: mmap_failing_at_def linux_h_def params4_def)
qed

text \<open>
  Claim C7 as stated, for every attempt, does not hold: with the head of the submission
  ring 8 bytes into its mapping, \<^verbatim>\<open>munmap\<close> is given an address 8 past the mapping,
  and after the descriptor mapping has failed the submission ring is still mapped.
\<close>

theorem mmap_failure_releases_counterexample:
  "mmap_failing_at 0x10000000 48 3 0 [] = Inr 0x7f0000000000 \<and>
   mmap_failing_at 0x10000000 256 3 0x10000000 [(0x7f0000000000, 48)] = Inl 12 \<and>
   fst (io_uring_mmap (mmap_failing_at 0x10000000) linux_h 3 (params4 8) sq_zeroed cq_zeroed [])
     = - 12 \<and>
   sqp_khead (fst (snd (io_uring_mmap (mmap_failing_at 0x10000000) linux_h 3 (params4 8)
                          sq_zeroed cq_zeroed []))) = 0x7f0000000008 \<and>
   snd (snd (snd (io_uring_mmap (mmap_failing_at 0x10000000) linux_h 3 (params4 8) sq_zeroed
                    cq_zeroed []))) = [(0x7f0000000000, 48)]"
  by (simp add: mmap_run_defs)

end
